theory Spec2Isabelle
  imports Complex_Main "HOL-Library.Word"
begin

section \<open>Values shared by the training scripts\<close>

text \<open>
  Exceptions are values. \<open>KeyError\<close> and \<open>ZeroDivisionError\<close> are Python's own,
  \<open>IndexError\<close>, \<open>ValueError\<close> and \<open>TypeError\<close> are what
  \<open>collections.deque\<close> and \<open>PIL.Image.fromarray\<close> raise on arguments they
  refuse. \<open>ShapeError\<close> is the error the specification names for the frame
  processor; no line of the source raises it.
\<close>

datatype error =
  KeyError | ZeroDivisionError | IndexError | ValueError | TypeError | ShapeError

text \<open>
  A NumPy array is its shape and its elements in row-major order. A well-formed array
  holds as many elements as its shape says.
\<close>

record 'a ndarray =
  shape :: "nat list"
  data :: "'a list"

definition wf_ndarray :: "'a ndarray \<Rightarrow> bool" where
  "wf_ndarray a = (length (data a) = prod_list (shape a))"

text \<open>
  \<open>batch.astype('float32')\<close> on an array of unsigned bytes: every byte value is a
  float32 value, so the conversion is exact. Floating-point numbers are modelled as
  reals throughout; the rounding of a float32 division is not part of the model.
\<close>

definition astype_float32 :: "8 word ndarray \<Rightarrow> real ndarray" where
  "astype_float32 a = \<lparr>shape = shape a, data = map (\<lambda>w. real (unat w)) (data a)\<rparr>"

text \<open>\<open>a / c\<close> for an array and a scalar divides element by element.\<close>

definition true_divide :: "real ndarray \<Rightarrow> real \<Rightarrow> real ndarray" where
  "true_divide a c = \<lparr>shape = shape a, data = map (\<lambda>x. x / c) (data a)\<rparr>"

text \<open>
  \<open>np.clip(a, a_min, a_max)\<close> is \<open>np.minimum(a_max, np.maximum(a, a_min))\<close>.
\<close>

definition clip :: "real \<Rightarrow> real \<Rightarrow> real \<Rightarrow> real" where
  "clip a a_min a_max = min a_max (max a a_min)"

section \<open>PIL images\<close>

text \<open>
  The part of the Pillow library that \<open>process_observation\<close> calls. An image has
  a mode, a size (width, height) and its pixels in row-major order, each pixel the list
  of its bands.
\<close>

datatype mode = Mode_L | Mode_LA | Mode_RGB | Mode_RGBA

type_synonym pixel = "8 word list"

record image =
  im_mode :: mode
  im_size :: "nat \<times> nat"
  im_pixels :: "pixel list"

fun bands :: "mode \<Rightarrow> nat" where
  "bands Mode_L = 1"
| "bands Mode_LA = 2"
| "bands Mode_RGB = 3"
| "bands Mode_RGBA = 4"

text \<open>
  \<open>Image.fromarray(obj)\<close> on an array of unsigned bytes reads the mode from the
  shape beyond the first two dimensions: \<open>(h, w)\<close> is mode L, \<open>(h, w, 2)\<close> LA,
  \<open>(h, w, 3)\<close> RGB and \<open>(h, w, 4)\<close> RGBA; any other trailing shape is not in its
  type map and raises \<open>TypeError\<close>. The size is \<open>(shape[1], shape[0])\<close>, which
  raises \<open>IndexError\<close> on fewer than two dimensions.
\<close>

definition frombuffer :: "mode \<Rightarrow> nat \<times> nat \<Rightarrow> 8 word list \<Rightarrow> image" where
  "frombuffer m sz buf =
     \<lparr>im_mode = m, im_size = sz,
      im_pixels = map (\<lambda>k. take (bands m) (drop (k * bands m) buf)) [0..<fst sz * snd sz]\<rparr>"

fun fromarray_mode :: "nat list \<Rightarrow> error + mode" where
  "fromarray_mode [] = Inr Mode_L"
| "fromarray_mode [c] =
     (if c = 2 then Inr Mode_LA else if c = 3 then Inr Mode_RGB
      else if c = 4 then Inr Mode_RGBA else Inl TypeError)"
| "fromarray_mode (c # d # ds) = Inl TypeError"

definition fromarray :: "8 word ndarray \<Rightarrow> error + image" where
  "fromarray obj =
     (case fromarray_mode (drop 2 (shape obj)) of
        Inl e \<Rightarrow> Inl e
      | Inr m \<Rightarrow>
          (case shape obj of
             h # w # _ \<Rightarrow> Inr (frombuffer m (w, h) (data obj))
           | _ \<Rightarrow> Inl IndexError))"

text \<open>
  \<open>img.resize(size)\<close> returns an image of the requested size and the same mode. How
  a pixel of the result is computed from the source depends on the resampling filter,
  and the default filter on the version of the library: the filter is a parameter,
  given the size and pixels of the source, the size of the result and a position in it.
\<close>

type_synonym resample = "nat \<times> nat \<Rightarrow> pixel list \<Rightarrow> nat \<times> nat \<Rightarrow> nat \<Rightarrow> nat \<Rightarrow> pixel"

definition resize :: "resample \<Rightarrow> image \<Rightarrow> nat \<times> nat \<Rightarrow> image" where
  "resize flt im sz =
     im\<lparr>im_size := sz,
        im_pixels :=
          concat (map (\<lambda>y. map (\<lambda>x. flt (im_size im) (im_pixels im) sz x y) [0..<fst sz])
                    [0..<snd sz])\<rparr>"

text \<open>
  \<open>img.convert('L')\<close> keeps the size and maps every pixel to one band: the
  luminance band of an L or LA pixel, and the luma of the colour bands of an RGB or
  RGBA pixel. The luma transform is a parameter as well. A band a pixel does not have
  reads as 0.
\<close>

type_synonym luma = "8 word \<Rightarrow> 8 word \<Rightarrow> 8 word \<Rightarrow> 8 word"

definition band :: "nat \<Rightarrow> pixel \<Rightarrow> 8 word" where
  "band i p = (if i < length p then p ! i else 0)"

fun to_L :: "luma \<Rightarrow> mode \<Rightarrow> pixel \<Rightarrow> 8 word" where
  "to_L lum Mode_L p = band 0 p"
| "to_L lum Mode_LA p = band 0 p"
| "to_L lum Mode_RGB p = lum (band 0 p) (band 1 p) (band 2 p)"
| "to_L lum Mode_RGBA p = lum (band 0 p) (band 1 p) (band 2 p)"

definition convert_L :: "luma \<Rightarrow> image \<Rightarrow> image" where
  "convert_L lum im =
     im\<lparr>im_mode := Mode_L, im_pixels := map (\<lambda>p. [to_L lum (im_mode im) p]) (im_pixels im)\<rparr>"

text \<open>
  \<open>np.array(img)\<close> has shape \<open>(height, width)\<close> for a one-band image and
  \<open>(height, width, bands)\<close> otherwise; \<open>astype('uint8')\<close> copies an array of
  unsigned bytes unchanged.
\<close>

definition np_array :: "image \<Rightarrow> 8 word ndarray" where
  "np_array im =
     \<lparr>shape = (if im_mode im = Mode_L then [snd (im_size im), fst (im_size im)]
               else [snd (im_size im), fst (im_size im), bands (im_mode im)]),
      data = concat (im_pixels im)\<rparr>"

definition astype_uint8 :: "8 word ndarray \<Rightarrow> 8 word ndarray" where
  "astype_uint8 a = a"

text \<open>
  Two instances of the parameters, for running the model: the filter that takes the
  nearest source pixel, and the ITU-R 601-2 luma transform
  \<open>L = R * 299/1000 + G * 587/1000 + B * 114/1000\<close> of the library's documentation.
\<close>

definition nearest :: resample where
  "nearest src_size src dst_size x y =
     (let sx = ((2 * x + 1) * fst src_size) div (2 * fst dst_size);
          sy = ((2 * y + 1) * snd src_size) div (2 * snd dst_size);
          k = sy * fst src_size + sx
      in if k < length src then src ! k else [])"

definition luma601 :: luma where
  "luma601 r g b = of_nat ((299 * unat r + 587 * unat g + 114 * unat b) div 1000)"

section \<open>FlappyBirdProcessor\<close>

definition INPUT_SHAPE :: "nat \<times> nat" where
  "INPUT_SHAPE = (84, 84)"

text \<open>
  \<^verbatim>\<open>
  def process_observation(self, observation):
      img = Image.fromarray(observation)
      img = img.resize(INPUT_SHAPE).convert('L')
      processed_observation = np.array(img)
      return processed_observation.astype('uint8')
  \<close>
  The method checks no shape itself: it fails where \<open>Image.fromarray\<close> fails.
\<close>

definition process_observation ::
  "resample \<Rightarrow> luma \<Rightarrow> 8 word ndarray \<Rightarrow> error + 8 word ndarray" where
  "process_observation flt lum observation =
     (case fromarray observation of
        Inl e \<Rightarrow> Inl e
      | Inr img \<Rightarrow>
          (let img' = convert_L lum (resize flt img INPUT_SHAPE);
               processed_observation = np_array img'
           in Inr (astype_uint8 processed_observation)))"

text \<open>
  \<^verbatim>\<open>
  def process_state_batch(self, batch):
      processed_batch = batch.astype('float32') / 255.
      return processed_batch

  def process_reward(self, reward):
      return np.clip(reward, -1., 1.)
  \<close>
\<close>

definition process_state_batch :: "8 word ndarray \<Rightarrow> real ndarray" where
  "process_state_batch batch = true_divide (astype_float32 batch) 255"

definition process_reward :: "real \<Rightarrow> real" where
  "process_reward reward = clip reward (- 1) 1"

section \<open>TensorboardCallback\<close>

text \<open>
  \<open>collections.deque(iterable, maxlen)\<close> refuses a negative \<open>maxlen\<close> with
  \<open>ValueError\<close>. Its \<open>append\<close> adds the value on the right and then, when the
  deque holds more than \<open>maxlen\<close> entries, drops the leftmost one.
\<close>

record 'a deque =
  maxlen :: nat
  items :: "'a list"

definition deque_new :: "int \<Rightarrow> error + 'a deque" where
  "deque_new n = (if n < 0 then Inl ValueError else Inr \<lparr>maxlen = nat n, items = []\<rparr>)"

definition deque_append :: "'a \<Rightarrow> 'a deque \<Rightarrow> 'a deque" where
  "deque_append v d =
     (let xs = items d @ [v]
      in d\<lparr>items := (if maxlen d < length xs then tl xs else xs)\<rparr>)"

text \<open>
  \<open>self.running_data\<close> is a dictionary with the two keys \<open>"reward"\<close> and
  \<open>"episode_duration"\<close>, set in that order by the constructor and never removed:
  one field per key, and \<open>items()\<close> lists them in insertion order.
\<close>

record running_data =
  reward_buffer :: "real deque"
  episode_duration_buffer :: "real deque"

definition running_data_items :: "running_data \<Rightarrow> (string \<times> real deque) list" where
  "running_data_items rd =
     [(''reward'', reward_buffer rd), (''episode_duration'', episode_duration_buffer rd)]"

text \<open>
  The callback object. \<open>tensorboard_writer\<close> is the sequence of summaries handed to
  \<open>add_summary\<close>, each a tag, a value and a step.
\<close>

record tensorboard_callback =
  log_interval :: int
  iterations :: int
  running_data :: running_data
  tensorboard_writer :: "(string \<times> real \<times> int) list"

type_synonym logs = "string \<rightharpoonup> real"

text \<open>
  \<^verbatim>\<open>
  def __init__(self, log_interval=1000, reward_buffer_length=10000,
               episode_duration_buffer_length=10000):
      self.log_interval = log_interval
      self.iterations = 0
      self.running_data = {}
      self.running_data["reward"] = deque([], maxlen=reward_buffer_length)
      self.running_data["episode_duration"] = deque([], maxlen=episode_duration_buffer_length)
      self.tensorboard_writer = tf.summary.FileWriter("tensorboard", flush_secs=5)
  \<close>
\<close>

definition TensorboardCallback :: "int \<Rightarrow> int \<Rightarrow> int \<Rightarrow> error + tensorboard_callback" where
  "TensorboardCallback log_interval' reward_buffer_length episode_duration_buffer_length =
     (case deque_new reward_buffer_length of
        Inl e \<Rightarrow> Inl e
      | Inr r \<Rightarrow>
          (case deque_new episode_duration_buffer_length of
             Inl e \<Rightarrow> Inl e
           | Inr d \<Rightarrow>
               Inr \<lparr>log_interval = log_interval', iterations = 0,
                    running_data = \<lparr>reward_buffer = r, episode_duration_buffer = d\<rparr>,
                    tensorboard_writer = []\<rparr>))"

text \<open>
  \<^verbatim>\<open>
  def _log_scalar(self, tag, value, step):
      summary = tf.Summary(value=[tf.Summary.Value(tag=tag, simple_value=value)])
      self.tensorboard_writer.add_summary(summary, step)
  \<close>
\<close>

definition log_scalar :: "string \<Rightarrow> real \<Rightarrow> int \<Rightarrow> tensorboard_callback \<Rightarrow> tensorboard_callback" where
  "log_scalar tag v step cb =
     cb\<lparr>tensorboard_writer := tensorboard_writer cb @ [(tag, v, step)]\<rparr>"

text \<open>\<open>np.mean\<close> of a non-empty sequence.\<close>

definition mean :: "real list \<Rightarrow> real" where
  "mean xs = sum_list xs / real (length xs)"

text \<open>
  \<^verbatim>\<open>
  def on_step_end(self, step, logs={}):
      self.running_data["reward"].append(logs["reward"])
      if self.iterations % self.log_interval == 0:
          for key, values in self.running_data.items():
              if len(values) > 0:
                  mean = np.mean(values)
                  self._log_scalar(key + "-mean", mean, self.iterations)
      self.iterations += 1

  def on_episode_end(self, step, logs={}):
      self.running_data["episode_duration"].append(logs["nb_episode_steps"])
  \<close>
  A call returns the object as the call left it, and the exception when it raised one:
  a missing key raises \<open>KeyError\<close> before anything is changed, and a
  \<open>log_interval\<close> of zero raises \<open>ZeroDivisionError\<close> after the reward has
  been appended and before the counter is incremented.
\<close>

definition log_means :: "tensorboard_callback \<Rightarrow> tensorboard_callback" where
  "log_means cb =
     foldl (\<lambda>c (key, vals).
              if 0 < length (items vals)
              then log_scalar (key @ ''-mean'') (mean (items vals)) (iterations c) c
              else c)
       cb (running_data_items (running_data cb))"

definition on_step_end ::
  "int \<Rightarrow> logs \<Rightarrow> tensorboard_callback \<Rightarrow> error option \<times> tensorboard_callback" where
  "on_step_end step logs cb =
     (case logs ''reward'' of
        None \<Rightarrow> (Some KeyError, cb)
      | Some r \<Rightarrow>
          (let rd = running_data cb;
               cb1 = cb\<lparr>running_data := rd\<lparr>reward_buffer := deque_append r (reward_buffer rd)\<rparr>\<rparr>
           in if log_interval cb1 = 0 then (Some ZeroDivisionError, cb1)
              else
                (let cb2 = (if iterations cb1 mod log_interval cb1 = 0
                            then log_means cb1 else cb1)
                 in (None, cb2\<lparr>iterations := iterations cb2 + 1\<rparr>))))"

definition on_episode_end ::
  "int \<Rightarrow> logs \<Rightarrow> tensorboard_callback \<Rightarrow> error option \<times> tensorboard_callback" where
  "on_episode_end step logs cb =
     (case logs ''nb_episode_steps'' of
        None \<Rightarrow> (Some KeyError, cb)
      | Some n \<Rightarrow>
          (let rd = running_data cb
           in (None,
               cb\<lparr>running_data :=
                    rd\<lparr>episode_duration_buffer :=
                         deque_append n (episode_duration_buffer rd)\<rparr>\<rparr>)))"

text \<open>
  A sequence of invocations, as the training loop makes them. The first exception ends
  the sequence, as it ends \<open>fit\<close>.
\<close>

datatype invocation = OnStepEnd int logs | OnEpisodeEnd int logs

fun invoke :: "invocation \<Rightarrow> tensorboard_callback \<Rightarrow> error option \<times> tensorboard_callback" where
  "invoke (OnStepEnd step logs) cb = on_step_end step logs cb"
| "invoke (OnEpisodeEnd step logs) cb = on_episode_end step logs cb"

fun invocations ::
  "invocation list \<Rightarrow> tensorboard_callback \<Rightarrow> error option \<times> tensorboard_callback" where
  "invocations [] cb = (None, cb)"
| "invocations (c # cs) cb =
     (case invoke c cb of
        (None, cb') \<Rightarrow> invocations cs cb'
      | (Some e, cb') \<Rightarrow> (Some e, cb'))"

text \<open>
  What a sequence of invocations hands to the two buffers, and how many of them are
  \<open>on_step_end\<close>; \<open>has_key\<close> says that an invocation's \<open>logs\<close> holds the key
  the method reads.
\<close>

fun step_rewards :: "invocation list \<Rightarrow> real list" where
  "step_rewards [] = []"
| "step_rewards (OnStepEnd step logs # cs) =
     (case logs ''reward'' of None \<Rightarrow> step_rewards cs | Some r \<Rightarrow> r # step_rewards cs)"
| "step_rewards (OnEpisodeEnd step logs # cs) = step_rewards cs"

fun episode_durations :: "invocation list \<Rightarrow> real list" where
  "episode_durations [] = []"
| "episode_durations (OnStepEnd step logs # cs) = episode_durations cs"
| "episode_durations (OnEpisodeEnd step logs # cs) =
     (case logs ''nb_episode_steps'' of
        None \<Rightarrow> episode_durations cs
      | Some n \<Rightarrow> n # episode_durations cs)"

fun step_ends :: "invocation list \<Rightarrow> nat" where
  "step_ends [] = 0"
| "step_ends (OnStepEnd step logs # cs) = Suc (step_ends cs)"
| "step_ends (OnEpisodeEnd step logs # cs) = step_ends cs"

fun has_key :: "invocation \<Rightarrow> bool" where
  "has_key (OnStepEnd step logs) = (logs ''reward'' \<noteq> None)"
| "has_key (OnEpisodeEnd step logs) = (logs ''nb_episode_steps'' \<noteq> None)"

text \<open>The last \<open>n\<close> elements of a list, oldest first.\<close>

definition lastn :: "nat \<Rightarrow> 'a list \<Rightarrow> 'a list" where
  "lastn n xs = drop (length xs - n) xs"

section \<open>Replay memory\<close>

text \<open>
  Modelled from the spec: the Transition, the immutable record of one environment step
  with its \<open>observation\<close>, \<open>action\<close>, \<open>reward\<close> and \<open>terminal\<close> flag. The
  scripts store transitions in \<open>rl.memory.SequentialMemory\<close>, code of the keras-rl
  library that is not among the sources.
\<close>

record 'o transition =
  observation :: 'o
  action :: nat
  reward :: real
  terminal :: bool

text \<open>
  Modelled from the spec: the Replay Memory, a capacity-bounded circular buffer of
  transitions with parallel episode-boundary markers, its capacity fixed at
  construction: a fixed-size circular array with integer indices, \<open>start\<close> the index
  of the oldest entry and \<open>stored\<close> the number of entries.
\<close>

record 'o replay_memory =
  capacity :: nat
  buffer :: "'o transition option list"
  boundary :: "bool list"
  start :: nat
  stored :: nat

text \<open>
  Modelled from the spec: the memory as created once at training start, empty. The
  scripts construct it with \<open>SequentialMemory(limit=1000000, window_length=WINDOW_LENGTH)\<close>
  (FlappyBird) and \<open>SequentialMemory(limit=100000, window_length=1)\<close> (LunarLander).
\<close>

definition replay_memory :: "nat \<Rightarrow> 'o replay_memory" where
  "replay_memory limit =
     \<lparr>capacity = limit, buffer = replicate limit None, boundary = replicate limit False,
      start = 0, stored = 0\<rparr>"

text \<open>
  Modelled from the spec: \<open>append(observation, action, reward, terminal)\<close>, which
  overwrites the oldest entry once at capacity and records an episode-boundary marker
  when \<open>terminal\<close> is true.
\<close>

definition append_memory ::
  "'o \<Rightarrow> nat \<Rightarrow> real \<Rightarrow> bool \<Rightarrow> 'o replay_memory \<Rightarrow> 'o replay_memory" where
  "append_memory obs a r t m =
     (let tr = \<lparr>observation = obs, action = a, reward = r, terminal = t\<rparr>
      in if stored m < capacity m
         then (let i = (start m + stored m) mod capacity m
               in m\<lparr>buffer := (buffer m)[i := Some tr], boundary := (boundary m)[i := t],
                    stored := stored m + 1\<rparr>)
         else (let i = start m
               in m\<lparr>buffer := (buffer m)[i := Some tr], boundary := (boundary m)[i := t],
                    start := (start m + 1) mod capacity m\<rparr>))"

text \<open>
  Modelled from the spec: what is retrievable from the memory, the entry at a position
  counted from the oldest, and all entries oldest first.
\<close>

definition retrieve :: "'o replay_memory \<Rightarrow> nat \<Rightarrow> 'o transition option" where
  "retrieve m i =
     (if i < stored m then buffer m ! ((start m + i) mod capacity m) else None)"

definition entries :: "'o replay_memory \<Rightarrow> 'o transition option list" where
  "entries m = map (retrieve m) [0..<stored m]"

text \<open>A sequence of appends, and the invariant of the circular array after them.\<close>

definition append_all :: "'o transition list \<Rightarrow> 'o replay_memory \<Rightarrow> 'o replay_memory" where
  "append_all trs m =
     foldl (\<lambda>m tr. append_memory (observation tr) (action tr) (reward tr) (terminal tr) m)
       m trs"

definition ring :: "nat \<Rightarrow> 'o transition list \<Rightarrow> 'o replay_memory \<Rightarrow> bool" where
  "ring c trs m \<longleftrightarrow>
     capacity m = c \<and> length (buffer m) = c \<and> start m < c
     \<and> stored m = min (length trs) c
     \<and> (\<forall>i < stored m. buffer m ! ((start m + i) mod c) = Some (lastn c trs ! i))"

section \<open>Training loop controller\<close>

text \<open>
  Modelled from the spec: the observable side effects of one step of the training loop
  controller, which in the scripts is \<open>DQNAgent.fit\<close>, code of the keras-rl library
  that is not among the sources: an action selected, a transition stored in the replay
  memory, a training step (sample a batch, compute targets, \<open>train_on_batch\<close>, sync
  check), and the step-end and episode-end callbacks.
\<close>

datatype effect = ActionSelected nat | TransitionStored | TrainingStep | StepEnd | EpisodeEnd

text \<open>
  Modelled from the spec: the training loop state, with the global step counter, the
  episode counter, the warmup-steps threshold and the train interval, the replay memory
  it owns, and the side effects so far.
\<close>

record 'o controller =
  global_step :: nat
  episode_counter :: nat
  warmup_steps :: nat
  train_interval :: nat
  memory :: "'o replay_memory"
  effects :: "effect list"

text \<open>
  Modelled from the spec: the controller at the start of a training run. The scripts
  configure \<open>nb_steps_warmup=50000, train_interval=4\<close> with \<open>limit=1000000\<close>
  (FlappyBird) and \<open>nb_steps_warmup=10\<close> with \<open>limit=100000\<close> (LunarLander).
\<close>

definition controller :: "nat \<Rightarrow> nat \<Rightarrow> nat \<Rightarrow> 'o controller" where
  "controller limit nb_steps_warmup interval =
     \<lparr>global_step = 0, episode_counter = 0, warmup_steps = nb_steps_warmup,
      train_interval = interval, memory = replay_memory limit, effects = []\<rparr>"

text \<open>
  Modelled from the spec: when a training step is executed. None during the first
  \<open>warmup_steps\<close> global steps; after warmup, once every \<open>train_interval\<close> global
  steps, so that a run of 50 steps with 20 warmup steps and interval 4 makes
  \<open>(50 - 20) / 4 = 7\<close> training steps, as the specification's end-to-end scenario says.
  The counter has been incremented for the current step when this is read.
\<close>

definition training_due :: "'o controller \<Rightarrow> bool" where
  "training_due s \<longleftrightarrow>
     warmup_steps s < global_step s \<and> 0 < train_interval s
     \<and> (global_step s - warmup_steps s) mod train_interval s = 0"

text \<open>
  Modelled from the spec: one global step. The policy and the environment are external
  collaborators: the step is given the transition they produce, the action selected
  and the observation, reward and terminal flag returned. Per step there is one replay
  memory append, zero or one training step, the step-end callback, and on
  \<open>terminal\<close> the episode counter is incremented and the episode-end callback made.
\<close>

definition controller_step :: "'o transition \<Rightarrow> 'o controller \<Rightarrow> 'o controller" where
  "controller_step tr s =
     (let s1 = s\<lparr>global_step := global_step s + 1,
                 memory := append_memory (observation tr) (action tr) (reward tr)
                             (terminal tr) (memory s),
                 effects := effects s @ [ActionSelected (action tr), TransitionStored]\<rparr>;
          s2 = (if training_due s1 then s1\<lparr>effects := effects s1 @ [TrainingStep]\<rparr> else s1);
          s3 = s2\<lparr>effects := effects s2 @ [StepEnd]\<rparr>
      in if terminal tr
         then s3\<lparr>episode_counter := episode_counter s3 + 1,
                 effects := effects s3 @ [EpisodeEnd]\<rparr>
         else s3)"

text \<open>A run of global steps, and the actions its side effects show as selected.\<close>

definition run_steps :: "'o transition list \<Rightarrow> 'o controller \<Rightarrow> 'o controller" where
  "run_steps trs s = foldl (\<lambda>s tr. controller_step tr s) s trs"

fun selected_actions :: "effect list \<Rightarrow> nat list" where
  "selected_actions [] = []"
| "selected_actions (ActionSelected a # es) = a # selected_actions es"
| "selected_actions (e # es) = selected_actions es"

section \<open>Exploration policy\<close>

text \<open>
  Modelled from the spec: the epsilon schedule of \<open>rl.policy.LinearAnnealedPolicy\<close>.
  The training script only constructs the policy; the class is code of the keras-rl
  library and is not among the sources. The specification gives the schedule as
  \<open>eps(step) = max(eps_min, eps_max - step * (eps_max - eps_min) / anneal_steps)\<close>.
\<close>

definition eps :: "real \<Rightarrow> real \<Rightarrow> nat \<Rightarrow> nat \<Rightarrow> real" where
  "eps eps_max eps_min anneal_steps step =
     max eps_min (eps_max - real step * (eps_max - eps_min) / real anneal_steps)"

text \<open>
  The FlappyBird script's policy:
  \<^verbatim>\<open>
  policy = LinearAnnealedPolicy(EpsGreedyQPolicy(), attr='eps', value_max=1., value_min=.1,
                                value_test=.05, nb_steps=1000000)
  \<close>
\<close>

definition flappybird_eps :: "nat \<Rightarrow> real" where
  "flappybird_eps step = eps 1 (1 / 10) 1000000 step"

section \<open>Target network manager\<close>

text \<open>
  Modelled from the spec: the sampled transition that \<open>compute_targets\<close> of the target
  network manager reads, the specification's tuple
  \<open>(state_window, action, reward, next_state_window, terminal)\<close>. In the scripts the
  target computation is inside \<open>rl.agents.dqn.DQNAgent\<close>, code of the keras-rl library
  that is not among the sources. The target network is the function \<open>predict\<close> from
  a window to its Q-values, one per action. The specification does not say what the
  target is when the network returns no Q-value at all; there the model has no target.
\<close>

record 'w sampled_transition =
  state_window :: 'w
  sampled_action :: nat
  sampled_reward :: real
  next_state_window :: 'w
  sampled_terminal :: bool

text \<open>
  Modelled from the spec: \<open>max_a\<close>, the largest of the Q-values of a prediction;
  there is none when the prediction is empty.
\<close>

fun max_a :: "real list \<Rightarrow> real option" where
  "max_a [] = None"
| "max_a (q # qs) = Some (fold max qs q)"

text \<open>
  Modelled from the spec: the target of one sampled transition, \<open>target = reward\<close>
  when \<open>terminal\<close> is true, else
  \<open>target = reward + gamma * max_a(target_network.predict(next_state_window))\<close>.
\<close>

definition compute_target ::
  "real \<Rightarrow> ('w \<Rightarrow> real list) \<Rightarrow> 'w sampled_transition \<Rightarrow> real option" where
  "compute_target gamma predict t =
     (if sampled_terminal t then Some (sampled_reward t)
      else (case max_a (predict (next_state_window t)) of
              None \<Rightarrow> None
            | Some m \<Rightarrow> Some (sampled_reward t + gamma * m)))"

text \<open>
  Modelled from the spec: \<open>compute_targets(batch) -> target_values\<close>, one target for
  each sampled transition of the batch.
\<close>

definition compute_targets ::
  "real \<Rightarrow> ('w \<Rightarrow> real list) \<Rightarrow> 'w sampled_transition list \<Rightarrow> real option list" where
  "compute_targets gamma predict batch = map (compute_target gamma predict) batch"

text \<open>The discount factor of the FlappyBird script: \<open>DQNAgent(..., gamma=.99, ...)\<close>.\<close>

definition flappybird_gamma :: real where
  "flappybird_gamma = 99 / 100"

section \<open>Reward clipping\<close>

lemma process_reward_unfold: "process_reward r = min 1 (max r (- 1))"
  by (simp add: process_reward_def clip_def)

lemma process_reward_cases:
  "process_reward r = (if r < - 1 then - 1 else if 1 < r then 1 else r)"
  by (simp add: process_reward_unfold min_def max_def)

text \<open>
  C5. Reward clipping is idempotent: clipping an already clipped reward changes nothing,
  for every real reward.
\<close>

theorem process_reward_idempotent:
  "process_reward (process_reward r) = process_reward r"
  by (simp add: process_reward_cases)

text \<open>
  C6. For every real reward \<open>r\<close> the clipped reward lies in \<open>[-1, 1]\<close>, it is
  \<open>r\<close> itself whenever \<open>r\<close> already lies in that range, and it is
  \<open>min(1, max(-1, r))\<close>.
\<close>

theorem process_reward_range:
  "- 1 \<le> process_reward r \<and> process_reward r \<le> 1
   \<and> (- 1 \<le> r \<and> r \<le> 1 \<longrightarrow> process_reward r = r)
   \<and> process_reward r = min 1 (max (- 1) r)"
  by (simp add: process_reward_cases min_def max_def)

theorem process_reward_range_witness:
  "- 1 \<le> process_reward 5 \<and> process_reward 5 \<le> 1
   \<and> - 1 \<le> process_reward (- 7 / 2) \<and> process_reward (- 7 / 2) \<le> 1
   \<and> (- 1 \<le> (1 / 4 :: real) \<and> (1 / 4 :: real) \<le> 1) \<and> process_reward (1 / 4) = 1 / 4"
  using process_reward_range [of 5] process_reward_range [of "- 7 / 2"]
    process_reward_range [of "1 / 4"]
  by simp

section \<open>State batches\<close>

lemma process_state_batch_data:
  "data (process_state_batch b) = map (\<lambda>w. real (unat w) / 255) (data b)"
  by (simp add: process_state_batch_def true_divide_def astype_float32_def)

lemma process_state_batch_shape: "shape (process_state_batch b) = shape b"
  by (simp add: process_state_batch_def true_divide_def astype_float32_def)

lemma unat_byte_le: "unat (w :: 8 word) \<le> 255"
proof -
  have "unat w < 2 ^ LENGTH(8)" by (rule unsigned_less)
  then show ?thesis by simp
qed

lemma max_byte: "real (unat (- 1 :: 8 word)) = 255"
proof -
  have "unat (- 1 :: 8 word) = 255"
    by (simp add: unsigned_minus_1_eq_mask mask_eq_exp_minus_1)
  then show ?thesis by (simp del: of_nat_unat)
qed

lemma byte_unit: "0 \<le> real (unat w) / 255 \<and> real (unat w) / 255 \<le> 1"
  for w :: "8 word"
proof -
  have "real (unat w) \<le> real 255"
    using unat_byte_le [of w] by (simp only: of_nat_le_iff)
  then show ?thesis by (simp del: of_nat_unat)
qed

text \<open>
  C7. A batch of unsigned 8-bit observations is returned with the same shape and every
  element divided by 255, the largest value of the 8-bit type, so every element of the
  result lies in \<open>[0, 1]\<close>.
\<close>

theorem process_state_batch_rescales:
  "shape (process_state_batch b) = shape b
   \<and> length (data (process_state_batch b)) = length (data b)
   \<and> (\<forall>i < length (data b).
         data (process_state_batch b) ! i
           = real (unat (data b ! i)) / real (unat (- 1 :: 8 word))
         \<and> 0 \<le> data (process_state_batch b) ! i
         \<and> data (process_state_batch b) ! i \<le> 1)"
  using byte_unit
  by (simp add: process_state_batch_data process_state_batch_shape max_byte
      del: of_nat_unat)

theorem process_state_batch_rescales_witness:
  "(1 :: nat) < length [0, 51, 255 :: 8 word]
   \<and> data (process_state_batch \<lparr>shape = [1, 3], data = [0, 51, 255]\<rparr>) ! 1 = 1 / 5
   \<and> 0 \<le> data (process_state_batch \<lparr>shape = [1, 3], data = [0, 51, 255]\<rparr>) ! 1
   \<and> data (process_state_batch \<lparr>shape = [1, 3], data = [0, 51, 255]\<rparr>) ! 1 \<le> 1"
  using process_state_batch_rescales [of "\<lparr>shape = [1, 3], data = [0, 51, 255]\<rparr>"]
  by (simp add: process_state_batch_data)

section \<open>The telemetry buffers\<close>

lemma lastn_length: "length (lastn n xs) = min n (length xs)"
  by (simp add: lastn_def)

lemma lastn_lastn_append: "lastn n (lastn n ys @ vs) = lastn n (ys @ vs)"
proof (cases "length ys \<le> n")
  case True
  then show ?thesis by (simp add: lastn_def)
next
  case False
  then show ?thesis by (simp add: lastn_def add.commute)
qed

lemma deque_append_maxlen [simp]: "maxlen (deque_append v d) = maxlen d"
  by (simp add: deque_append_def Let_def)

lemma deque_append_items:
  "length (items d) \<le> maxlen d \<Longrightarrow> items (deque_append v d) = lastn (maxlen d) (items d @ [v])"
proof (cases "length (items d) = maxlen d")
  case True
  then have "Suc (maxlen d) - maxlen d = 1" by simp
  with True show ?thesis
    by (cases "items d") (simp_all add: deque_append_def Let_def lastn_def drop_Suc)
next
  case False
  assume "length (items d) \<le> maxlen d"
  with False have "length (items d) < maxlen d" by simp
  then show ?thesis by (simp add: deque_append_def Let_def lastn_def)
qed

lemma lastn_id: "length xs \<le> n \<Longrightarrow> lastn n xs = xs"
  by (simp add: lastn_def)

lemma log_means_frame:
  "running_data (log_means cb) = running_data cb
   \<and> iterations (log_means cb) = iterations cb
   \<and> log_interval (log_means cb) = log_interval cb"
  by (simp add: log_means_def running_data_items_def log_scalar_def)

lemma on_step_end_KeyError:
  "logs ''reward'' = None \<Longrightarrow> on_step_end step logs cb = (Some KeyError, cb)"
  by (simp add: on_step_end_def)

lemma on_step_end_appends:
  assumes "logs ''reward'' = Some v" and "on_step_end step logs cb = (r, cb1)"
  shows "running_data cb1
           = (running_data cb)\<lparr>reward_buffer :=
                deque_append v (reward_buffer (running_data cb))\<rparr>"
    and "log_interval cb1 = log_interval cb"
    and "r = None \<longleftrightarrow> log_interval cb \<noteq> 0"
    and "r = None \<Longrightarrow> iterations cb1 = iterations cb + 1"
    and "r \<noteq> None \<Longrightarrow> iterations cb1 = iterations cb"
  using assms
  by (auto simp: on_step_end_def Let_def log_means_frame split: if_splits)

lemma on_episode_end_KeyError:
  "logs ''nb_episode_steps'' = None \<Longrightarrow> on_episode_end step logs cb = (Some KeyError, cb)"
  by (simp add: on_episode_end_def)

lemma on_episode_end_appends:
  assumes "logs ''nb_episode_steps'' = Some v" and "on_episode_end step logs cb = (r, cb1)"
  shows "running_data cb1
           = (running_data cb)\<lparr>episode_duration_buffer :=
                deque_append v (episode_duration_buffer (running_data cb))\<rparr>"
    and "log_interval cb1 = log_interval cb"
    and "r = None"
    and "iterations cb1 = iterations cb"
  using assms
  by (auto simp: on_episode_end_def Let_def)

text \<open>One invocation: what it keeps, and what it does to the buffers and the counter.\<close>

lemma invoke_step:
  assumes "invoke c cb = (r, cb1)"
    and "length (items (reward_buffer (running_data cb)))
           \<le> maxlen (reward_buffer (running_data cb))"
    and "length (items (episode_duration_buffer (running_data cb)))
           \<le> maxlen (episode_duration_buffer (running_data cb))"
  shows "log_interval cb1 = log_interval cb
    \<and> maxlen (reward_buffer (running_data cb1)) = maxlen (reward_buffer (running_data cb))
    \<and> maxlen (episode_duration_buffer (running_data cb1))
           = maxlen (episode_duration_buffer (running_data cb))
    \<and> length (items (reward_buffer (running_data cb1)))
           \<le> maxlen (reward_buffer (running_data cb))
    \<and> length (items (episode_duration_buffer (running_data cb1)))
           \<le> maxlen (episode_duration_buffer (running_data cb))
    \<and> (r = None \<longrightarrow>
          iterations cb1 = iterations cb + int (step_ends [c])
        \<and> items (reward_buffer (running_data cb1))
           = lastn (maxlen (reward_buffer (running_data cb)))
               (items (reward_buffer (running_data cb)) @ step_rewards [c])
        \<and> items (episode_duration_buffer (running_data cb1))
           = lastn (maxlen (episode_duration_buffer (running_data cb)))
               (items (episode_duration_buffer (running_data cb)) @ episode_durations [c]))"
proof (cases c)
  case (OnStepEnd step logs)
  show ?thesis
  proof (cases "logs ''reward''")
    case None
    with OnStepEnd assms show ?thesis
      by (auto simp: on_step_end_KeyError)
  next
    case (Some v)
    with OnStepEnd assms(1) have call: "on_step_end step logs cb = (r, cb1)" by simp
    note facts = on_step_end_appends [OF Some call]
    from assms(2,3) OnStepEnd Some facts show ?thesis
      by (simp add: deque_append_items lastn_length lastn_id)
  qed
next
  case (OnEpisodeEnd step logs)
  show ?thesis
  proof (cases "logs ''nb_episode_steps''")
    case None
    with OnEpisodeEnd assms show ?thesis
      by (auto simp: on_episode_end_KeyError)
  next
    case (Some v)
    with OnEpisodeEnd assms(1) have call: "on_episode_end step logs cb = (r, cb1)" by simp
    note facts = on_episode_end_appends [OF Some call]
    from assms(2,3) OnEpisodeEnd Some facts show ?thesis
      by (simp add: deque_append_items lastn_length lastn_id)
  qed
qed

lemma step_rewards_Cons: "step_rewards (c # cs) = step_rewards [c] @ step_rewards cs"
  by (cases c) (simp_all split: option.splits)

lemma episode_durations_Cons:
  "episode_durations (c # cs) = episode_durations [c] @ episode_durations cs"
  by (cases c) (simp_all split: option.splits)

lemma step_ends_Cons: "step_ends (c # cs) = step_ends [c] + step_ends cs"
  by (cases c) simp_all

text \<open>A sequence of invocations, from any object whose buffers are within their bounds.\<close>

lemma invocations_invariant:
  assumes "invocations cs cb = (r, cb')"
    and "length (items (reward_buffer (running_data cb)))
           \<le> maxlen (reward_buffer (running_data cb))"
    and "length (items (episode_duration_buffer (running_data cb)))
           \<le> maxlen (episode_duration_buffer (running_data cb))"
  shows "log_interval cb' = log_interval cb
    \<and> maxlen (reward_buffer (running_data cb')) = maxlen (reward_buffer (running_data cb))
    \<and> maxlen (episode_duration_buffer (running_data cb'))
           = maxlen (episode_duration_buffer (running_data cb))
    \<and> length (items (reward_buffer (running_data cb')))
           \<le> maxlen (reward_buffer (running_data cb))
    \<and> length (items (episode_duration_buffer (running_data cb')))
           \<le> maxlen (episode_duration_buffer (running_data cb))
    \<and> (r = None \<longrightarrow>
          iterations cb' = iterations cb + int (step_ends cs)
        \<and> items (reward_buffer (running_data cb'))
           = lastn (maxlen (reward_buffer (running_data cb)))
               (items (reward_buffer (running_data cb)) @ step_rewards cs)
        \<and> items (episode_duration_buffer (running_data cb'))
           = lastn (maxlen (episode_duration_buffer (running_data cb)))
               (items (episode_duration_buffer (running_data cb)) @ episode_durations cs))"
  using assms
proof (induction cs arbitrary: cb)
  case Nil
  then show ?case by (simp add: lastn_id)
next
  case (Cons c cs)
  obtain r1 cb1 where first: "invoke c cb = (r1, cb1)" by (cases "invoke c cb")
  note one = invoke_step [OF first Cons.prems(2) Cons.prems(3)]
  show ?case
  proof (cases r1)
    case (Some e)
    with first Cons.prems(1) have "r = Some e" and "cb' = cb1" by simp_all
    with one show ?thesis by simp
  next
    case None
    with first Cons.prems(1) have rest: "invocations cs cb1 = (r, cb')" by simp
    from one have b1: "length (items (reward_buffer (running_data cb1)))
        \<le> maxlen (reward_buffer (running_data cb1))"
      and b2: "length (items (episode_duration_buffer (running_data cb1)))
        \<le> maxlen (episode_duration_buffer (running_data cb1))"
      by simp_all
    note more = Cons.IH [OF rest b1 b2]
    from one None have it1: "iterations cb1 = iterations cb + int (step_ends [c])"
      and rw1: "items (reward_buffer (running_data cb1))
           = lastn (maxlen (reward_buffer (running_data cb)))
               (items (reward_buffer (running_data cb)) @ step_rewards [c])"
      and ep1: "items (episode_duration_buffer (running_data cb1))
           = lastn (maxlen (episode_duration_buffer (running_data cb)))
               (items (episode_duration_buffer (running_data cb)) @ episode_durations [c])"
      by simp_all
    from one have m1: "maxlen (reward_buffer (running_data cb1))
           = maxlen (reward_buffer (running_data cb))"
      and m2: "maxlen (episode_duration_buffer (running_data cb1))
           = maxlen (episode_duration_buffer (running_data cb))"
      and li: "log_interval cb1 = log_interval cb"
      by simp_all
    have count: "r = None \<longrightarrow> iterations cb' = iterations cb + int (step_ends (c # cs))"
      using more it1 by (simp add: step_ends_Cons [of c cs])
    have rw: "r = None \<longrightarrow> items (reward_buffer (running_data cb'))
           = lastn (maxlen (reward_buffer (running_data cb)))
               (items (reward_buffer (running_data cb)) @ step_rewards (c # cs))"
      using more m1 rw1
      by (simp add: step_rewards_Cons [of c cs] lastn_lastn_append)
    have ep: "r = None \<longrightarrow> items (episode_duration_buffer (running_data cb'))
           = lastn (maxlen (episode_duration_buffer (running_data cb)))
               (items (episode_duration_buffer (running_data cb)) @ episode_durations (c # cs))"
      using more m2 ep1
      by (simp add: episode_durations_Cons [of c cs] lastn_lastn_append)
    from more m1 m2 li count rw ep show ?thesis by simp
  qed
qed

lemma invoke_returns:
  assumes "has_key c" and "log_interval cb \<noteq> 0"
  shows "\<exists>cb1. invoke c cb = (None, cb1) \<and> log_interval cb1 = log_interval cb"
proof (cases c)
  case (OnStepEnd step logs)
  with assms(1) obtain v where v: "logs ''reward'' = Some v" by auto
  obtain r cb1 where call: "on_step_end step logs cb = (r, cb1)"
    by (cases "on_step_end step logs cb")
  from on_step_end_appends(2,3) [OF v call] assms(2) OnStepEnd call show ?thesis by simp
next
  case (OnEpisodeEnd step logs)
  with assms(1) obtain v where v: "logs ''nb_episode_steps'' = Some v" by auto
  obtain r cb1 where call: "on_episode_end step logs cb = (r, cb1)"
    by (cases "on_episode_end step logs cb")
  from on_episode_end_appends(2,3) [OF v call] OnEpisodeEnd call show ?thesis by simp
qed

lemma invocations_return:
  "log_interval cb \<noteq> 0 \<Longrightarrow> \<forall>c \<in> set cs. has_key c \<Longrightarrow> fst (invocations cs cb) = None"
proof (induction cs arbitrary: cb)
  case Nil
  then show ?case by simp
next
  case (Cons c cs)
  from Cons.prems have "has_key c" by simp
  from invoke_returns [OF this Cons.prems(1)] obtain cb1
    where "invoke c cb = (None, cb1)" and "log_interval cb1 = log_interval cb" by blast
  with Cons show ?case by simp
qed

lemma TensorboardCallback_Inr:
  assumes "TensorboardCallback li rbl edbl = Inr cb0"
  shows "log_interval cb0 = li \<and> iterations cb0 = 0
    \<and> reward_buffer (running_data cb0) = \<lparr>maxlen = nat rbl, items = []\<rparr>
    \<and> episode_duration_buffer (running_data cb0) = \<lparr>maxlen = nat edbl, items = []\<rparr>"
  using assms
  by (auto simp: TensorboardCallback_def deque_new_def split: if_splits)

lemma on_step_end_counts:
  "(on_step_end step logs c = (None, c') \<longrightarrow> iterations c' = iterations c + 1)
   \<and> (on_step_end step logs c = (Some e, c') \<longrightarrow> iterations c' = iterations c)"
proof (cases "logs ''reward''")
  case None
  then show ?thesis by (auto simp: on_step_end_KeyError)
next
  case (Some v)
  show ?thesis
    using Some on_step_end_appends(4) [of logs v step c None c']
      on_step_end_appends(5) [of logs v step c "Some e" c']
    by simp
qed

text \<open>
  C10, as the claim states it, fails: \<open>iterations\<close> does not increase by one on every
  \<open>on_step_end\<close> call. On a callback constructed with the default arguments, a call
  with the method's default \<open>logs={}\<close> raises \<open>KeyError\<close> and leaves the counter at
  0; on a callback constructed with \<open>log_interval = 0\<close>, a call with a reward appends
  the reward, raises \<open>ZeroDivisionError\<close> and leaves the counter at 0 as well.
\<close>

theorem on_step_end_raises:
  "TensorboardCallback 1000 10000 10000
     = Inr \<lparr>log_interval = 1000, iterations = 0,
            running_data = \<lparr>reward_buffer = \<lparr>maxlen = 10000, items = []\<rparr>,
                            episode_duration_buffer = \<lparr>maxlen = 10000, items = []\<rparr>\<rparr>,
            tensorboard_writer = []\<rparr>
   \<and> on_step_end 0 Map.empty
        \<lparr>log_interval = 1000, iterations = 0,
         running_data = \<lparr>reward_buffer = \<lparr>maxlen = 10000, items = []\<rparr>,
                         episode_duration_buffer = \<lparr>maxlen = 10000, items = []\<rparr>\<rparr>,
         tensorboard_writer = []\<rparr>
     = (Some KeyError,
        \<lparr>log_interval = 1000, iterations = 0,
         running_data = \<lparr>reward_buffer = \<lparr>maxlen = 10000, items = []\<rparr>,
                         episode_duration_buffer = \<lparr>maxlen = 10000, items = []\<rparr>\<rparr>,
         tensorboard_writer = []\<rparr>)
   \<and> TensorboardCallback 0 10000 10000
     = Inr \<lparr>log_interval = 0, iterations = 0,
            running_data = \<lparr>reward_buffer = \<lparr>maxlen = 10000, items = []\<rparr>,
                            episode_duration_buffer = \<lparr>maxlen = 10000, items = []\<rparr>\<rparr>,
            tensorboard_writer = []\<rparr>
   \<and> on_step_end 0 [''reward'' \<mapsto> 1]
        \<lparr>log_interval = 0, iterations = 0,
         running_data = \<lparr>reward_buffer = \<lparr>maxlen = 10000, items = []\<rparr>,
                         episode_duration_buffer = \<lparr>maxlen = 10000, items = []\<rparr>\<rparr>,
         tensorboard_writer = []\<rparr>
     = (Some ZeroDivisionError,
        \<lparr>log_interval = 0, iterations = 0,
         running_data = \<lparr>reward_buffer = \<lparr>maxlen = 10000, items = [1]\<rparr>,
                         episode_duration_buffer = \<lparr>maxlen = 10000, items = []\<rparr>\<rparr>,
         tensorboard_writer = []\<rparr>)
   \<and> step_ends [OnStepEnd 0 [''reward'' \<mapsto> 1]] = 1"
  by (simp add: TensorboardCallback_def deque_new_def on_step_end_def deque_append_def Let_def)

text \<open>
  C10, amended. On a callback constructed with \<open>reward_buffer_length\<close> and
  \<open>episode_duration_buffer_length\<close>, after any sequence of \<open>on_step_end\<close> and
  \<open>on_episode_end\<close> invocations the reward buffer holds at most
  \<open>reward_buffer_length\<close> entries and the episode-duration buffer at most
  \<open>episode_duration_buffer_length\<close>. The \<open>iterations\<close> counter increases by exactly
  one per \<open>on_step_end\<close> call that returns, and a call that raises leaves it
  unchanged. When every invocation returned, each buffer holds the most recent values
  handed to it, the oldest dropped first, and \<open>iterations\<close> is the number of
  \<open>on_step_end\<close> invocations; every invocation returns when \<open>log_interval\<close> is not
  zero and each \<open>logs\<close> holds the key read.
\<close>

theorem tensorboard_buffers_bounded:
  assumes "TensorboardCallback li rbl edbl = Inr cb0"
    and "invocations cs cb0 = (r, cb)"
  shows "length (items (reward_buffer (running_data cb))) \<le> nat rbl
    \<and> length (items (episode_duration_buffer (running_data cb))) \<le> nat edbl
    \<and> (r = None \<longrightarrow>
          iterations cb = int (step_ends cs)
        \<and> items (reward_buffer (running_data cb)) = lastn (nat rbl) (step_rewards cs)
        \<and> items (episode_duration_buffer (running_data cb))
             = lastn (nat edbl) (episode_durations cs))
    \<and> (li \<noteq> 0 \<and> (\<forall>c \<in> set cs. has_key c) \<longrightarrow> r = None)
    \<and> (\<forall>step logs c c'. on_step_end step logs c = (None, c')
          \<longrightarrow> iterations c' = iterations c + 1)
    \<and> (\<forall>step logs c e c'. on_step_end step logs c = (Some e, c')
          \<longrightarrow> iterations c' = iterations c)"
proof -
  note init = TensorboardCallback_Inr [OF assms(1)]
  from init have b1: "length (items (reward_buffer (running_data cb0)))
        \<le> maxlen (reward_buffer (running_data cb0))"
    and b2: "length (items (episode_duration_buffer (running_data cb0)))
        \<le> maxlen (episode_duration_buffer (running_data cb0))"
    by simp_all
  note inv = invocations_invariant [OF assms(2) b1 b2]
  have ret: "li \<noteq> 0 \<and> (\<forall>c \<in> set cs. has_key c) \<longrightarrow> r = None"
    using invocations_return [of cb0 cs] assms(2) init by simp
  have one: "\<forall>step logs c c'. on_step_end step logs c = (None, c')
          \<longrightarrow> iterations c' = iterations c + 1"
    using on_step_end_counts by blast
  have zero: "\<forall>step logs c e c'. on_step_end step logs c = (Some e, c')
          \<longrightarrow> iterations c' = iterations c"
    using on_step_end_counts by blast
  from inv init ret have "length (items (reward_buffer (running_data cb))) \<le> nat rbl
    \<and> length (items (episode_duration_buffer (running_data cb))) \<le> nat edbl
    \<and> (r = None \<longrightarrow>
          iterations cb = int (step_ends cs)
        \<and> items (reward_buffer (running_data cb)) = lastn (nat rbl) (step_rewards cs)
        \<and> items (episode_duration_buffer (running_data cb))
             = lastn (nat edbl) (episode_durations cs))
    \<and> (li \<noteq> 0 \<and> (\<forall>c \<in> set cs. has_key c) \<longrightarrow> r = None)"
    by simp
  with one zero show ?thesis by blast
qed

theorem tensorboard_buffers_bounded_witness:
  "\<exists>cb0 cb c1.
     TensorboardCallback 2 2 1 = Inr cb0
     \<and> invocations
         [OnStepEnd 0 [''reward'' \<mapsto> 1], OnStepEnd 1 [''reward'' \<mapsto> 2],
          OnEpisodeEnd 0 [''nb_episode_steps'' \<mapsto> 2], OnStepEnd 2 [''reward'' \<mapsto> 3],
          OnEpisodeEnd 1 [''nb_episode_steps'' \<mapsto> 1]] cb0 = (None, cb)
     \<and> length (items (reward_buffer (running_data cb))) \<le> 2
     \<and> length (items (episode_duration_buffer (running_data cb))) \<le> 1
     \<and> iterations cb = 3
     \<and> items (reward_buffer (running_data cb)) = [2, 3]
     \<and> items (episode_duration_buffer (running_data cb)) = [1]
     \<and> on_step_end 0 [''reward'' \<mapsto> 1] cb0 = (None, c1)
     \<and> iterations c1 = iterations cb0 + 1"
proof -
  let ?cs = "[OnStepEnd 0 [''reward'' \<mapsto> 1], OnStepEnd 1 [''reward'' \<mapsto> 2],
          OnEpisodeEnd 0 [''nb_episode_steps'' \<mapsto> 2], OnStepEnd 2 [''reward'' \<mapsto> 3],
          OnEpisodeEnd 1 [''nb_episode_steps'' \<mapsto> 1]]"
  obtain cb0 where init: "TensorboardCallback 2 2 1 = Inr cb0"
    by (simp add: TensorboardCallback_def deque_new_def)
  obtain r cb where run: "invocations ?cs cb0 = (r, cb)"
    by (cases "invocations ?cs cb0")
  note facts = tensorboard_buffers_bounded [OF init run]
  from facts have none: "r = None" by simp
  obtain r1 c1 where call: "on_step_end 0 [''reward'' \<mapsto> 1] cb0 = (r1, c1)"
    by (cases "on_step_end 0 [''reward'' \<mapsto> 1] cb0")
  have "log_interval cb0 = 2" using TensorboardCallback_Inr [OF init] by simp
  with on_step_end_appends(3) [of "[''reward'' \<mapsto> 1]" 1 0 cb0 r1 c1] call
  have r1: "r1 = None" by simp
  with call facts have count: "iterations c1 = iterations cb0 + 1" by blast
  from facts none run have "invocations ?cs cb0 = (None, cb)
     \<and> length (items (reward_buffer (running_data cb))) \<le> 2
     \<and> length (items (episode_duration_buffer (running_data cb))) \<le> 1
     \<and> iterations cb = 3
     \<and> items (reward_buffer (running_data cb)) = [2, 3]
     \<and> items (episode_duration_buffer (running_data cb)) = [1]"
    by (simp add: lastn_def)
  with init call r1 count show ?thesis by blast
qed

section \<open>Observations\<close>

lemma length_concat_rows:
  "length (concat (map (\<lambda>y. map (f y) [0..<w]) [0..<h])) = h * w"
  by (induction h) simp_all

lemma resize_facts:
  "im_size (resize flt im sz) = sz"
  "im_mode (resize flt im sz) = im_mode im"
  "length (im_pixels (resize flt im sz)) = snd sz * fst sz"
  by (simp_all add: resize_def length_concat_rows)

lemma convert_L_facts:
  "im_size (convert_L lum im) = im_size im"
  "im_mode (convert_L lum im) = Mode_L"
  "concat (im_pixels (convert_L lum im)) = map (to_L lum (im_mode im)) (im_pixels im)"
  by (simp_all add: convert_L_def concat_map_singleton)

lemma process_observation_Inr:
  assumes "fromarray obs = Inr img"
  shows "\<exists>a. process_observation flt lum obs = Inr a
           \<and> shape a = [84, 84] \<and> length (data a) = 84 * 84 \<and> wf_ndarray a"
  using assms
  by (simp add: process_observation_def astype_uint8_def np_array_def INPUT_SHAPE_def
      convert_L_facts resize_facts wf_ndarray_def)

lemma process_observation_Inl:
  "process_observation flt lum obs = Inl e \<Longrightarrow> fromarray obs = Inl e"
  by (simp add: process_observation_def split: sum.splits)

lemma fromarray_errors: "fromarray obs = Inl e \<Longrightarrow> e = TypeError \<or> e = IndexError"
proof -
  have "fromarray_mode ds = Inl e' \<Longrightarrow> e' = TypeError" for ds e'
    by (cases ds rule: fromarray_mode.cases) (simp_all split: if_splits)
  then show "fromarray obs = Inl e \<Longrightarrow> e = TypeError \<or> e = IndexError"
    by (auto simp: fromarray_def split: sum.splits list.splits)
qed

lemma fromarray_accepts:
  assumes "shape obs = [h, w] \<or> shape obs = [h, w, c] \<and> c \<in> {2, 3, 4}"
  shows "\<exists>img. fromarray obs = Inr img"
  using assms by (auto simp: fromarray_def)

text \<open>
  C9, as the claim states it, fails: a frame of 2 rows and 3 columns of RGB pixels and a
  frame of 3 rows and 2 columns of grey pixels have different shapes, so at least one of
  them does not have the expected shape, yet neither is refused.
\<close>

theorem process_observation_no_ShapeError:
  "shape \<lparr>shape = [2, 3, 3], data = replicate 18 (7 :: 8 word)\<rparr>
     \<noteq> shape \<lparr>shape = [3, 2], data = replicate 6 (7 :: 8 word)\<rparr>
   \<and> \<not> isl (process_observation nearest luma601
               \<lparr>shape = [2, 3, 3], data = replicate 18 7\<rparr>)
   \<and> \<not> isl (process_observation nearest luma601
               \<lparr>shape = [3, 2], data = replicate 6 7\<rparr>)
   \<and> shape (projr (process_observation nearest luma601
               \<lparr>shape = [2, 3, 3], data = replicate 18 7\<rparr>)) = [84, 84]
   \<and> shape (projr (process_observation nearest luma601
               \<lparr>shape = [3, 2], data = replicate 6 7\<rparr>)) = [84, 84]"
proof -
  let ?a = "\<lparr>shape = [2, 3, 3], data = replicate 18 (7 :: 8 word)\<rparr>"
  let ?b = "\<lparr>shape = [3, 2], data = replicate 6 (7 :: 8 word)\<rparr>"
  obtain ia where "fromarray ?a = Inr ia"
    using fromarray_accepts [of ?a 2 3 3] by auto
  from process_observation_Inr [OF this, of nearest luma601]
  have a: "\<not> isl (process_observation nearest luma601 ?a)
      \<and> shape (projr (process_observation nearest luma601 ?a)) = [84, 84]"
    by auto
  obtain ib where "fromarray ?b = Inr ib"
    using fromarray_accepts [of ?b 3 2] by auto
  from process_observation_Inr [OF this, of nearest luma601]
  have b: "\<not> isl (process_observation nearest luma601 ?b)
      \<and> shape (projr (process_observation nearest luma601 ?b)) = [84, 84]"
    by auto
  from a b show ?thesis by simp
qed

text \<open>
  C9, amended. \<open>process_observation\<close> checks no shape and never fails with
  \<open>ShapeError\<close>: whatever the resampling filter and the luma transform, every frame of
  unsigned bytes of shape \<open>(h, w)\<close>, or \<open>(h, w, c)\<close> with 2, 3 or 4 channels, with
  positive height and width, is returned as an 84 by 84 single-channel array of
  unsigned bytes; where the method fails, it is \<open>Image.fromarray\<close> that failed, with
  the same error.
\<close>

theorem process_observation_fixed_shape:
  "process_observation flt lum obs \<noteq> Inl ShapeError
   \<and> (\<forall>e. process_observation flt lum obs = Inl e \<longrightarrow> fromarray obs = Inl e)
   \<and> (0 < h \<and> 0 < w \<and> (shape obs = [h, w] \<or> shape obs = [h, w, c] \<and> c \<in> {2, 3, 4})
        \<longrightarrow> (\<exists>a. process_observation flt lum obs = Inr a
                 \<and> shape a = [84, 84] \<and> length (data a) = 84 * 84 \<and> wf_ndarray a))"
proof -
  have err: "fromarray obs = Inl e" if "process_observation flt lum obs = Inl e" for e
    using that by (rule process_observation_Inl)
  then have "process_observation flt lum obs \<noteq> Inl ShapeError"
    by (fastforce dest: fromarray_errors)
  moreover have "\<exists>a. process_observation flt lum obs = Inr a
      \<and> shape a = [84, 84] \<and> length (data a) = 84 * 84 \<and> wf_ndarray a"
    if "shape obs = [h, w] \<or> shape obs = [h, w, c] \<and> c \<in> {2, 3, 4}"
  proof -
    from fromarray_accepts [OF that] obtain img where "fromarray obs = Inr img" ..
    then show ?thesis by (rule process_observation_Inr)
  qed
  ultimately show ?thesis using err by blast
qed

theorem process_observation_fixed_shape_witness:
  "(0 :: nat) < 512 \<and> (0 :: nat) < 288
   \<and> shape \<lparr>shape = [512, 288, 3], data = replicate (512 * 288 * 3) (0 :: 8 word)\<rparr>
       = [512, 288, 3]
   \<and> (3 :: nat) \<in> {2, 3, 4}
   \<and> (\<exists>a. process_observation nearest luma601
              \<lparr>shape = [512, 288, 3], data = replicate (512 * 288 * 3) 0\<rparr> = Inr a
          \<and> shape a = [84, 84] \<and> length (data a) = 84 * 84 \<and> wf_ndarray a)"
  using process_observation_fixed_shape
    [of nearest luma601 "\<lparr>shape = [512, 288, 3], data = replicate (512 * 288 * 3) 0\<rparr>"
        512 288 3]
  by simp

section \<open>The epsilon schedule\<close>

lemma eps_antimono:
  assumes "eps_min \<le> eps_max" and "step1 \<le> step2"
  shows "eps eps_max eps_min anneal_steps step2 \<le> eps eps_max eps_min anneal_steps step1"
proof -
  have "real step1 * (eps_max - eps_min) \<le> real step2 * (eps_max - eps_min)"
    using assms by (intro mult_right_mono) simp_all
  then have "real step1 * (eps_max - eps_min) / real anneal_steps
      \<le> real step2 * (eps_max - eps_min) / real anneal_steps"
    by (rule divide_right_mono) simp
  then show ?thesis by (simp add: eps_def max_def)
qed

lemma eps_floor:
  assumes "eps_min \<le> eps_max" and "0 < anneal_steps" and "anneal_steps \<le> step"
  shows "eps eps_max eps_min anneal_steps step = eps_min"
proof -
  have "real anneal_steps * (eps_max - eps_min) \<le> real step * (eps_max - eps_min)"
    using assms by (intro mult_right_mono) simp_all
  then have "eps_max - eps_min \<le> real step * (eps_max - eps_min) / real anneal_steps"
    using assms(2) by (simp add: pos_le_divide_eq mult.commute)
  then show ?thesis by (simp add: eps_def max_def)
qed

text \<open>
  C3. With \<open>eps_max = 1.0\<close>, \<open>eps_min = 0.1\<close> and \<open>anneal_steps = 1000000\<close> the
  schedule is \<open>max(eps_min, eps_max - step * (eps_max - eps_min) / anneal_steps)\<close>; it
  does not increase between two steps \<open>step1 < step2 \<le> anneal_steps\<close>, and it is
  \<open>eps_min\<close> at every step beyond \<open>anneal_steps\<close>.
\<close>

theorem flappybird_eps_schedule:
  "flappybird_eps step = max (1 / 10) (1 - real step * (1 - 1 / 10) / 1000000)
   \<and> (step1 < step2 \<and> step2 \<le> 1000000 \<longrightarrow> flappybird_eps step2 \<le> flappybird_eps step1)
   \<and> (1000000 < step \<longrightarrow> flappybird_eps step = 1 / 10)"
proof -
  have "flappybird_eps step = max (1 / 10) (1 - real step * (1 - 1 / 10) / 1000000)"
    by (simp add: flappybird_eps_def eps_def)
  moreover have "flappybird_eps step2 \<le> flappybird_eps step1" if "step1 < step2"
    unfolding flappybird_eps_def using that by (intro eps_antimono) simp_all
  moreover have "flappybird_eps step = 1 / 10" if "1000000 < step"
    unfolding flappybird_eps_def using that by (intro eps_floor) simp_all
  ultimately show ?thesis by blast
qed

theorem flappybird_eps_schedule_witness:
  "(0 :: nat) < 500000 \<and> (500000 :: nat) \<le> 1000000
   \<and> flappybird_eps 500000 \<le> flappybird_eps 0
   \<and> flappybird_eps 0 = 1 \<and> flappybird_eps 500000 = 11 / 20
   \<and> (1000000 :: nat) < 1750000 \<and> flappybird_eps 1750000 = 1 / 10"
  using flappybird_eps_schedule [of 0 0 500000] flappybird_eps_schedule [of 500000 0 500000]
    flappybird_eps_schedule [of 1750000 0 500000]
  by simp

section \<open>Bootstrapped targets\<close>

lemma max_a_Max: "qs \<noteq> [] \<Longrightarrow> max_a qs = Some (Max (set qs))"
proof (cases qs)
  case Nil
  assume "qs \<noteq> []"
  with Nil show ?thesis by simp
next
  case (Cons q qs')
  have "fold max qs' q = Max (set (q # qs'))" by (rule Max.set_eq_fold [symmetric])
  with Cons show ?thesis by simp
qed

text \<open>
  C1. In a sampled batch, the target of every terminal transition is its reward, whatever
  the target network predicts for the next-state window, and the target of every
  non-terminal transition is its reward plus \<open>gamma\<close> times the largest Q-value the
  target network predicts for the next-state window.
\<close>

theorem compute_targets_bootstrap:
  "length (compute_targets gamma predict batch) = length batch
   \<and> (\<forall>i < length batch.
        (sampled_terminal (batch ! i) \<longrightarrow>
           compute_targets gamma predict batch ! i = Some (sampled_reward (batch ! i)))
      \<and> (\<not> sampled_terminal (batch ! i) \<and> predict (next_state_window (batch ! i)) \<noteq> [] \<longrightarrow>
           compute_targets gamma predict batch ! i
             = Some (sampled_reward (batch ! i)
                     + gamma * Max (set (predict (next_state_window (batch ! i)))))))"
  by (simp add: compute_targets_def compute_target_def max_a_Max)

theorem compute_targets_bootstrap_witness:
  "(0 :: nat) < length [\<lparr>state_window = (0 :: nat), sampled_action = 1, sampled_reward = 5,
        next_state_window = 1, sampled_terminal = True\<rparr>]
   \<and> compute_targets (9 / 10) (\<lambda>w. [100, 200])
        [\<lparr>state_window = (0 :: nat), sampled_action = 1, sampled_reward = 5,
          next_state_window = 1, sampled_terminal = True\<rparr>] ! 0 = Some 5
   \<and> (1 :: nat) < length [\<lparr>state_window = (0 :: nat), sampled_action = 1, sampled_reward = 5,
        next_state_window = 1, sampled_terminal = True\<rparr>,
        \<lparr>state_window = 1, sampled_action = 0, sampled_reward = 1,
          next_state_window = 2, sampled_terminal = False\<rparr>]
   \<and> [real 2, 3, 1] \<noteq> []
   \<and> compute_targets flappybird_gamma (\<lambda>w. [real w, 3, 1])
        [\<lparr>state_window = (0 :: nat), sampled_action = 1, sampled_reward = 5,
          next_state_window = 1, sampled_terminal = True\<rparr>,
         \<lparr>state_window = 1, sampled_action = 0, sampled_reward = 1,
          next_state_window = 2, sampled_terminal = False\<rparr>] ! 1 = Some (397 / 100)"
  using compute_targets_bootstrap [of "9 / 10" "\<lambda>w. [100, 200]"
      "[\<lparr>state_window = (0 :: nat), sampled_action = 1, sampled_reward = 5,
        next_state_window = 1, sampled_terminal = True\<rparr>]"]
    compute_targets_bootstrap [of flappybird_gamma "\<lambda>w. [real w, 3, 1]"
      "[\<lparr>state_window = (0 :: nat), sampled_action = 1, sampled_reward = 5,
        next_state_window = 1, sampled_terminal = True\<rparr>,
        \<lparr>state_window = 1, sampled_action = 0, sampled_reward = 1,
          next_state_window = 2, sampled_terminal = False\<rparr>]"]
  by (simp add: flappybird_gamma_def)

section \<open>The ring of transitions\<close>

lemma wrap: "s < c \<Longrightarrow> i < c \<Longrightarrow> (s + i) mod c = (if s + i < c then s + i else s + i - c)"
  for s i c :: nat
  by (simp add: mod_if)

lemma wrap_inj:
  fixes s i j c :: nat
  assumes "s < c" "i < c" "j < c" "i \<noteq> j"
  shows "(s + i) mod c \<noteq> (s + j) mod c"
  using assms by (simp add: wrap) linarith

lemma wrap_less: "0 < c \<Longrightarrow> (s + i) mod c < c" for s i c :: nat
  by simp

lemma ring_new: "0 < c \<Longrightarrow> ring c [] (replay_memory c)"
  by (simp add: ring_def replay_memory_def)

lemma append_memory_tr:
  "append_memory (observation tr) (action tr) (reward tr) (terminal tr) m =
     (if stored m < capacity m
      then m\<lparr>buffer := (buffer m)[(start m + stored m) mod capacity m := Some tr],
             boundary := (boundary m)[(start m + stored m) mod capacity m := terminal tr],
             stored := stored m + 1\<rparr>
      else m\<lparr>buffer := (buffer m)[start m := Some tr],
             boundary := (boundary m)[start m := terminal tr],
             start := (start m + 1) mod capacity m\<rparr>)"
  for tr :: "'o transition"
  by (cases tr) (simp add: append_memory_def Let_def)

lemma ring_append_filling:
  fixes tr :: "'o transition"
  assumes r: "ring c trs m" and c: "0 < c" and room: "stored m < capacity m"
  shows "ring c (trs @ [tr])
           (append_memory (observation tr) (action tr) (reward tr) (terminal tr) m)"
proof -
  from r have cap: "capacity m = c" and len: "length (buffer m) = c" and s: "start m < c"
    and st: "stored m = min (length trs) c"
    and old: "\<forall>i < stored m. buffer m ! ((start m + i) mod c) = Some (lastn c trs ! i)"
    by (simp_all add: ring_def)
  from room cap st have short: "length trs < c" and st': "stored m = length trs" by simp_all
  then have l1: "lastn c trs = trs" and l2: "lastn c (trs @ [tr]) = trs @ [tr]"
    by (simp_all add: lastn_def)
  let ?j = "(start m + length trs) mod c"
  have jc: "?j < c" using c by simp
  have cells: "(buffer m)[?j := Some tr] ! ((start m + i) mod c) = Some ((trs @ [tr]) ! i)"
    if "i < Suc (length trs)" for i
  proof (cases "i = length trs")
    case True
    with jc len show ?thesis by simp
  next
    case False
    with that have i: "i < length trs" by simp
    with short have "(start m + i) mod c \<noteq> ?j"
      using wrap_inj [OF s, of i "length trs"] by simp
    with i old st' l1 show ?thesis by (simp add: nth_append)
  qed
  from cap len s short st' cells l2 room show ?thesis
    by (simp add: ring_def append_memory_tr)
qed

lemma ring_append_full:
  fixes tr :: "'o transition"
  assumes r: "ring c trs m" and c: "0 < c" and full: "\<not> stored m < capacity m"
  shows "ring c (trs @ [tr])
           (append_memory (observation tr) (action tr) (reward tr) (terminal tr) m)"
proof -
  from r have cap: "capacity m = c" and len: "length (buffer m) = c" and s: "start m < c"
    and st: "stored m = min (length trs) c"
    and old: "\<forall>i < stored m. buffer m ! ((start m + i) mod c) = Some (lastn c trs ! i)"
    by (simp_all add: ring_def)
  from full cap st have long: "c \<le> length trs" and st': "stored m = c" by simp_all
  have shift: "lastn c (trs @ [tr]) = drop 1 (lastn c trs) @ [tr]"
    using long c by (simp add: lastn_def Suc_diff_le)
  have llen: "length (lastn c trs) = c" using long by (simp add: lastn_def)
  let ?s' = "(start m + 1) mod c"
  have cells: "(buffer m)[start m := Some tr] ! ((?s' + i) mod c)
      = Some (lastn c (trs @ [tr]) ! i)" if i: "i < c" for i
  proof -
    have "(?s' + i) mod c = (start m + 1 + i) mod c"
      by (rule mod_add_left_eq)
    then have idx: "(?s' + i) mod c = (start m + (i + 1)) mod c"
      by (simp only: add.assoc add.commute [of 1 i])
    show ?thesis
    proof (cases "i + 1 = c")
      case True
      then have "(start m + (i + 1)) mod c = start m" using s by simp
      moreover have "lastn c (trs @ [tr]) ! i = tr"
        using True llen by (simp add: shift nth_append)
      ultimately show ?thesis using idx s len by simp
    next
      case False
      with i have i1: "i + 1 < c" by simp
      have "(start m + (i + 1)) mod c \<noteq> (start m + 0) mod c"
        using wrap_inj [OF s i1, of 0] c by simp
      then have ne: "(start m + (i + 1)) mod c \<noteq> start m" using s by simp
      have nxt: "lastn c (trs @ [tr]) ! i = lastn c trs ! (i + 1)"
        using i1 llen by (simp add: shift nth_append)
      from old st' i1 have "buffer m ! ((start m + (i + 1)) mod c) = Some (lastn c trs ! (i + 1))"
        by blast
      with ne idx nxt show ?thesis by simp
    qed
  qed
  from cap len s long st' cells full c show ?thesis
    by (simp add: ring_def append_memory_tr)
qed

lemma ring_append:
  fixes tr :: "'o transition"
  assumes "ring c trs m" and "0 < c"
  shows "ring c (trs @ [tr])
           (append_memory (observation tr) (action tr) (reward tr) (terminal tr) m)"
  using assms ring_append_filling ring_append_full by blast

lemma ring_append_all:
  "0 < c \<Longrightarrow> ring c hist m \<Longrightarrow> ring c (hist @ trs) (append_all trs m)"
proof (induction trs arbitrary: hist m)
  case Nil
  then show ?case by (simp add: append_all_def)
next
  case (Cons tr trs)
  from ring_append [OF Cons.prems(2) Cons.prems(1), of tr]
  have "ring c ((hist @ [tr]) @ trs)
     (append_all trs (append_memory (observation tr) (action tr) (reward tr) (terminal tr) m))"
    by (rule Cons.IH [OF Cons.prems(1)])
  then show ?case by (simp add: append_all_def)
qed

lemma ring_entries:
  assumes "ring c trs m"
  shows "entries m = map Some (lastn c trs)"
proof (rule nth_equalityI)
  from assms show "length (entries m) = length (map Some (lastn c trs))"
    by (simp add: entries_def ring_def lastn_def)
next
  fix i assume "i < length (entries m)"
  then have i: "i < stored m" by (simp add: entries_def)
  with assms have "length (lastn c trs) = stored m"
    by (simp add: ring_def lastn_def)
  with i assms show "entries m ! i = map Some (lastn c trs) ! i"
    by (simp add: entries_def retrieve_def ring_def)
qed

text \<open>
  C2. A replay memory constructed with a capacity never stores more transitions than
  its capacity, whatever sequence of transitions is appended; what is retrievable after
  the appends is exactly the last \<open>capacity\<close> appended transitions, oldest first, so
  after \<open>capacity + k\<close> appends the oldest \<open>k\<close> are gone.
\<close>

theorem replay_memory_ring:
  assumes "0 < c"
  shows "stored (append_all trs (replay_memory c)) \<le> c
    \<and> stored (append_all trs (replay_memory c)) = min (length trs) c
    \<and> entries (append_all trs (replay_memory c)) = map Some (lastn c trs)
    \<and> (length trs = c + k \<longrightarrow>
         entries (append_all trs (replay_memory c)) = map Some (drop k trs))"
proof -
  have r: "ring c trs (append_all trs (replay_memory c))"
    using ring_append_all [OF assms ring_new [OF assms], of trs] by simp
  then have "stored (append_all trs (replay_memory c)) = min (length trs) c"
    by (simp add: ring_def)
  moreover note ring_entries [OF r]
  ultimately show ?thesis by (auto simp: lastn_def)
qed

theorem replay_memory_ring_witness:
  "(0 :: nat) < 2
   \<and> length [\<lparr>observation = (10 :: nat), action = 0, reward = 1, terminal = False\<rparr>,
        \<lparr>observation = 11, action = 1, reward = 0, terminal = True\<rparr>,
        \<lparr>observation = 12, action = 1, reward = - 1, terminal = False\<rparr>] = 2 + 1
   \<and> stored (append_all
        [\<lparr>observation = (10 :: nat), action = 0, reward = 1, terminal = False\<rparr>,
         \<lparr>observation = 11, action = 1, reward = 0, terminal = True\<rparr>,
         \<lparr>observation = 12, action = 1, reward = - 1, terminal = False\<rparr>]
        (replay_memory 2)) = 2
   \<and> entries (append_all
        [\<lparr>observation = (10 :: nat), action = 0, reward = 1, terminal = False\<rparr>,
         \<lparr>observation = 11, action = 1, reward = 0, terminal = True\<rparr>,
         \<lparr>observation = 12, action = 1, reward = - 1, terminal = False\<rparr>]
        (replay_memory 2))
       = [Some \<lparr>observation = 11, action = 1, reward = 0, terminal = True\<rparr>,
          Some \<lparr>observation = 12, action = 1, reward = - 1, terminal = False\<rparr>]"
  using replay_memory_ring [of 2
      "[\<lparr>observation = (10 :: nat), action = 0, reward = 1, terminal = False\<rparr>,
        \<lparr>observation = 11, action = 1, reward = 0, terminal = True\<rparr>,
        \<lparr>observation = 12, action = 1, reward = - 1, terminal = False\<rparr>]" 1]
  by (simp add: lastn_def)

section \<open>Warmup\<close>

lemma selected_actions_append:
  "selected_actions (es @ fs) = selected_actions es @ selected_actions fs"
  by (induction es rule: selected_actions.induct) simp_all

lemma controller_step_frame:
  "global_step (controller_step tr s) = global_step s + 1"
  "warmup_steps (controller_step tr s) = warmup_steps s"
  "train_interval (controller_step tr s) = train_interval s"
  "memory (controller_step tr s)
     = append_memory (observation tr) (action tr) (reward tr) (terminal tr) (memory s)"
  "selected_actions (effects (controller_step tr s))
     = selected_actions (effects s) @ [action tr]"
  "count_list (effects (controller_step tr s)) TransitionStored
     = count_list (effects s) TransitionStored + 1"
  "count_list (effects (controller_step tr s)) EpisodeEnd
     = count_list (effects s) EpisodeEnd + (if terminal tr then 1 else 0)"
  by (simp_all add: controller_step_def Let_def selected_actions_append)

lemma controller_step_training:
  "count_list (effects (controller_step tr s)) TrainingStep
     = count_list (effects s) TrainingStep
       + (if warmup_steps s < global_step s + 1 \<and> 0 < train_interval s
             \<and> (global_step s + 1 - warmup_steps s) mod train_interval s = 0
          then 1 else 0)"
  by (simp add: controller_step_def Let_def training_due_def)

lemma controller_step_grows:
  "take (length (effects s)) (effects (controller_step tr s)) = effects s"
  by (simp add: controller_step_def Let_def)

lemma controller_step_length: "length (effects s) \<le> length (effects (controller_step tr s))"
  by (simp add: controller_step_def Let_def)

lemma run_steps_snoc: "run_steps (trs @ [tr]) s = controller_step tr (run_steps trs s)"
  by (simp add: run_steps_def)

lemma run_steps_append: "run_steps (trs1 @ trs2) s = run_steps trs2 (run_steps trs1 s)"
  by (simp add: run_steps_def)

lemma run_steps_frame:
  "global_step (run_steps trs s) = global_step s + length trs
   \<and> warmup_steps (run_steps trs s) = warmup_steps s
   \<and> train_interval (run_steps trs s) = train_interval s
   \<and> memory (run_steps trs s) = append_all trs (memory s)
   \<and> selected_actions (effects (run_steps trs s))
       = selected_actions (effects s) @ map action trs
   \<and> count_list (effects (run_steps trs s)) TransitionStored
       = count_list (effects s) TransitionStored + length trs
   \<and> count_list (effects (run_steps trs s)) EpisodeEnd
       = count_list (effects s) EpisodeEnd + length (filter terminal trs)"
proof (induction trs rule: rev_induct)
  case Nil
  show ?case by (simp add: run_steps_def append_all_def)
next
  case (snoc tr trs)
  then show ?case
    by (simp add: run_steps_snoc controller_step_frame append_all_def)
qed

lemma run_steps_grows:
  "length (effects s) \<le> length (effects (run_steps trs s))
   \<and> take (length (effects s)) (effects (run_steps trs s)) = effects s"
proof (induction trs rule: rev_induct)
  case Nil
  show ?case by (simp add: run_steps_def)
next
  case (snoc tr trs)
  let ?s = "run_steps trs s"
  from snoc have le: "length (effects s) \<le> length (effects ?s)"
    and tk: "take (length (effects s)) (effects ?s) = effects s" by simp_all
  have "take (length (effects s)) (effects (controller_step tr ?s))
      = take (length (effects s)) (take (length (effects ?s)) (effects (controller_step tr ?s)))"
    using le by (simp add: min_def)
  also have "\<dots> = effects s" using tk by (simp only: controller_step_grows)
  finally show ?case
    using le controller_step_length [of ?s tr] by (simp add: run_steps_snoc)
qed

lemma run_steps_training_count:
  assumes "0 < train_interval s"
  shows "count_list (effects (run_steps trs s)) TrainingStep
     = count_list (effects s) TrainingStep
       + ((global_step s + length trs - warmup_steps s) div train_interval s
          - (global_step s - warmup_steps s) div train_interval s)"
proof (induction trs rule: rev_induct)
  case Nil
  show ?case by (simp add: run_steps_def)
next
  case (snoc tr trs)
  let ?g = "global_step s + length trs" and ?w = "warmup_steps s" and ?t = "train_interval s"
  have mono: "(global_step s - ?w) div ?t \<le> (?g - ?w) div ?t"
    by (intro div_le_mono) simp
  have next_div: "(Suc ?g - ?w) div ?t
      = (?g - ?w) div ?t + (if ?w < Suc ?g \<and> (Suc ?g - ?w) mod ?t = 0 then 1 else 0)"
  proof (cases "?w < Suc ?g")
    case True
    then have "Suc ?g - ?w = Suc (?g - ?w)" by simp
    then show ?thesis using True by (simp add: div_Suc)
  next
    case False
    then show ?thesis by simp
  qed
  from snoc mono next_div assms show ?case
    by (simp add: run_steps_snoc controller_step_training run_steps_frame)
qed

lemma run_steps_warmup:
  "global_step s + length trs \<le> warmup_steps s
   \<Longrightarrow> count_list (effects (run_steps trs s)) TrainingStep
       = count_list (effects s) TrainingStep"
proof (induction trs rule: rev_induct)
  case Nil
  show ?case by (simp add: run_steps_def)
next
  case (snoc tr trs)
  then show ?case
    by (simp add: run_steps_snoc controller_step_training run_steps_frame)
qed

text \<open>
  The specification's end-to-end scenario, as far as it concerns the controller: with
  capacity 100, 20 warmup steps and train interval 4, a run of 50 steps with a terminal
  step every 10 steps makes 7 training steps and 5 episode-end callbacks.
\<close>

lemma end_to_end_scenario:
  fixes trs :: "nat transition list"
  assumes "length trs = 50" and "length (filter terminal trs) = 5"
  shows "count_list (effects (run_steps trs (controller 100 20 4))) TrainingStep = 7
    \<and> count_list (effects (run_steps trs (controller 100 20 4))) EpisodeEnd = 5"
  using run_steps_training_count [of "controller 100 20 4 :: nat controller" trs]
    run_steps_frame [of trs "controller 100 20 4 :: nat controller"] assms
  by (simp add: controller_def)

text \<open>
  C8. During the first \<open>warmup_steps\<close> global steps of a training run the controller
  selects an action and stores a transition in the replay memory at every step, and
  executes no training step: after any number of steps up to \<open>warmup_steps\<close> the side
  effects hold no training step, they show the actions of the run as selected, one
  transition was stored per step, and the memory is the one the transitions were
  appended to. A longer run begins with the same side effects.
\<close>

theorem warmup_no_training:
  assumes "length trs \<le> nb_steps_warmup"
  shows "TrainingStep \<notin> set (effects (run_steps trs (controller limit nb_steps_warmup interval)))
    \<and> global_step (run_steps trs (controller limit nb_steps_warmup interval)) = length trs
    \<and> selected_actions (effects (run_steps trs (controller limit nb_steps_warmup interval)))
        = map action trs
    \<and> count_list (effects (run_steps trs (controller limit nb_steps_warmup interval)))
        TransitionStored = length trs
    \<and> memory (run_steps trs (controller limit nb_steps_warmup interval))
        = append_all trs (replay_memory limit)
    \<and> take (length (effects (run_steps trs (controller limit nb_steps_warmup interval))))
         (effects (run_steps (trs @ later) (controller limit nb_steps_warmup interval)))
        = effects (run_steps trs (controller limit nb_steps_warmup interval))"
proof -
  let ?s0 = "controller limit nb_steps_warmup interval :: 'a controller"
  have "count_list (effects (run_steps trs ?s0)) TrainingStep = 0"
    using run_steps_warmup [of ?s0 trs] assms by (simp add: controller_def)
  then have none: "TrainingStep \<notin> set (effects (run_steps trs ?s0))"
    by (simp add: count_list_0_iff)
  have frame: "global_step (run_steps trs ?s0) = length trs
    \<and> selected_actions (effects (run_steps trs ?s0)) = map action trs
    \<and> count_list (effects (run_steps trs ?s0)) TransitionStored = length trs
    \<and> memory (run_steps trs ?s0) = append_all trs (replay_memory limit)"
    using run_steps_frame [of trs ?s0] by (simp add: controller_def)
  have "take (length (effects (run_steps trs ?s0))) (effects (run_steps (trs @ later) ?s0))
      = effects (run_steps trs ?s0)"
    using run_steps_grows [of "run_steps trs ?s0" later] by (simp add: run_steps_append)
  with none frame show ?thesis by simp
qed

theorem warmup_no_training_witness:
  "length [\<lparr>observation = (10 :: nat), action = 1, reward = 0, terminal = False\<rparr>,
           \<lparr>observation = 11, action = 0, reward = 1, terminal = True\<rparr>] \<le> (2 :: nat)
   \<and> TrainingStep \<notin> set (effects (run_steps
        [\<lparr>observation = (10 :: nat), action = 1, reward = 0, terminal = False\<rparr>,
         \<lparr>observation = 11, action = 0, reward = 1, terminal = True\<rparr>]
        (controller 3 2 1)))
   \<and> selected_actions (effects (run_steps
        [\<lparr>observation = (10 :: nat), action = 1, reward = 0, terminal = False\<rparr>,
         \<lparr>observation = 11, action = 0, reward = 1, terminal = True\<rparr>]
        (controller 3 2 1))) = [1, 0]
   \<and> count_list (effects (run_steps
        [\<lparr>observation = (10 :: nat), action = 1, reward = 0, terminal = False\<rparr>,
         \<lparr>observation = 11, action = 0, reward = 1, terminal = True\<rparr>]
        (controller 3 2 1))) TransitionStored = 2"
  using warmup_no_training [of
      "[\<lparr>observation = (10 :: nat), action = 1, reward = 0, terminal = False\<rparr>,
        \<lparr>observation = 11, action = 0, reward = 1, terminal = True\<rparr>]" 2 3 1 "[]"]
  by simp

end
